theory Spec2Isabelle
  imports Main "HOL-Library.Word"
begin

unbundle bit_operations_syntax

section \<open>Byte strings, errors and Python slices\<close>

text \<open>
  The program is Python 2: a \<open>str\<close> is a sequence of single-byte characters, so a
  string is a list of 8-bit words and \<open>chr (ord c1 ^ ord c2)\<close> is the bitwise XOR of two
  bytes (the XOR of two values below 256 stays below 256, so \<open>chr\<close> never fails there).
\<close>

type_synonym byte = "8 word"
type_synonym bytes = "byte list"

text \<open>The only exception the functions below can raise themselves: an index out of range.\<close>

datatype error = IndexError

type_synonym 'a result = "error + 'a"

text \<open>
  Python's \<open>s[:j]\<close> and \<open>s[i:]\<close> for an integer bound: a negative bound counts from the
  end, and every bound is clamped to \<open>0 .. len s\<close>; a slice never raises.
\<close>

definition slice_to :: "'a list \<Rightarrow> int \<Rightarrow> 'a list" where
  "slice_to s j = (if j < 0 then take (nat (int (length s) + j)) s else take (nat j) s)"

definition slice_from :: "'a list \<Rightarrow> int \<Rightarrow> 'a list" where
  "slice_from s i = (if i < 0 then drop (nat (int (length s) + i)) s else drop (nat i) s)"

section \<open>The helpers of the module\<close>

text \<open>\<open>xor(c1, c2)\<close>, the function local to \<open>xorstr\<close>.\<close>

definition xor_chr :: "byte \<Rightarrow> byte \<Rightarrow> byte" where
  "xor_chr c1 c2 = c1 XOR c2"

text \<open>
  \<open>xorstr(s1, s2)\<close> walks the indices of \<open>s1\<close>; reading \<open>s2[i]\<close> beyond the end of
  \<open>s2\<close> raises IndexError and the whole call fails. A longer \<open>s2\<close> is cut to the
  length of \<open>s1\<close>.
\<close>

fun xorstr :: "bytes \<Rightarrow> bytes \<Rightarrow> bytes result" where
  "xorstr [] s2 = Inr []"
| "xorstr (c1 # s1) [] = Inl IndexError"
| "xorstr (c1 # s1) (c2 # s2) =
     (case xorstr s1 s2 of Inl e \<Rightarrow> Inl e | Inr r \<Rightarrow> Inr (xor_chr c1 c2 # r))"

text \<open>
  \<open>rand_bytes(strlen)\<close> draws \<open>strlen\<close> values from \<open>random.randint(0, 255)\<close>. The
  generator is the sequence of values it is going to return; a call consumes a prefix.
\<close>

type_synonym rng = "nat \<Rightarrow> byte"

definition rand_bytes :: "rng \<Rightarrow> nat \<Rightarrow> bytes \<times> rng" where
  "rand_bytes g strlen = (map g [0..<strlen], \<lambda>i. g (i + strlen))"

section \<open>The cipher object of the cryptography package\<close>

text \<open>
  AES itself is not part of the program: it is the block cipher of the external
  \<open>cryptography\<close> package. The development takes the keystream of AES in counter mode
  as a parameter \<open>K\<close>: \<open>K key nonce i\<close> is the keystream byte at position \<open>i\<close> under
  \<open>key\<close> and the initial counter block \<open>nonce\<close>. Every theorem holds for every \<open>K\<close>.

  \<open>Cipher(algorithms.AES(key), modes.CTR(nonce))\<close> only stores its two arguments. A
  context made by \<open>encryptor()\<close> or \<open>decryptor()\<close> starts at position 0 of the
  keystream; \<open>update\<close> XORs the data with the next keystream bytes and advances;
  \<open>finalize\<close> returns the empty string in counter mode. Encryption and decryption
  contexts are the same in counter mode.
\<close>

type_synonym keystream = "bytes \<Rightarrow> bytes \<Rightarrow> nat \<Rightarrow> byte"

record Cipher =
  algorithm_key :: bytes
  mode_nonce :: bytes

record CipherContext =
  ctx_key :: bytes
  ctx_nonce :: bytes
  ctx_pos :: nat

definition encryptor :: "Cipher \<Rightarrow> CipherContext" where
  "encryptor c = \<lparr>ctx_key = algorithm_key c, ctx_nonce = mode_nonce c, ctx_pos = 0\<rparr>"

definition decryptor :: "Cipher \<Rightarrow> CipherContext" where
  "decryptor c = \<lparr>ctx_key = algorithm_key c, ctx_nonce = mode_nonce c, ctx_pos = 0\<rparr>"

definition update :: "keystream \<Rightarrow> CipherContext \<Rightarrow> bytes \<Rightarrow> bytes \<times> CipherContext" where
  "update K ctx data =
     (map2 (XOR) data
        (map (K (ctx_key ctx) (ctx_nonce ctx)) [ctx_pos ctx ..< ctx_pos ctx + length data]),
      ctx\<lparr>ctx_pos := ctx_pos ctx + length data\<rparr>)"

definition finalize :: "CipherContext \<Rightarrow> bytes" where
  "finalize ctx = []"

section \<open>SessionOracle\<close>

record SessionOracle =
  key :: bytes
  nonce :: bytes
  cipher :: Cipher

definition BLOCKSIZE :: nat where
  "BLOCKSIZE = 16"

text \<open>\<open>__init__\<close>: two draws of \<open>BLOCKSIZE\<close> random bytes, then the cipher object.\<close>

definition init :: "rng \<Rightarrow> SessionOracle \<times> rng" where
  "init g =
     (let (k, g1) = rand_bytes g BLOCKSIZE;
          (n, g2) = rand_bytes g1 BLOCKSIZE
      in (\<lparr>key = k, nonce = n, cipher = \<lparr>algorithm_key = k, mode_nonce = n\<rparr>\<rparr>, g2))"

text \<open>
  Each method takes the instance and returns its result together with the instance
  after the call, so that what a call does to the fields is part of the model.
\<close>

definition encrypt :: "keystream \<Rightarrow> SessionOracle \<Rightarrow> bytes \<Rightarrow> bytes result \<times> SessionOracle" where
  "encrypt K self pt =
     (let enc = encryptor (cipher self);
          (out, enc1) = update K enc pt
      in (Inr (out @ finalize enc1), self))"

text \<open>The private method \<open>__decrypt\<close>.\<close>

definition SessionOracle_decrypt ::
  "keystream \<Rightarrow> SessionOracle \<Rightarrow> bytes \<Rightarrow> bytes result \<times> SessionOracle" where
  "SessionOracle_decrypt K self ct =
     (let dec = decryptor (cipher self);
          (out, dec1) = update K dec ct
      in (Inr (out @ finalize dec1), self))"

text \<open>
  \<open>edit\<close>: decrypt, splice with two slices, encrypt. The offset is a Python integer;
  nothing in the method checks it against the length of the ciphertext.
\<close>

definition edit ::
  "keystream \<Rightarrow> SessionOracle \<Rightarrow> bytes \<Rightarrow> int \<Rightarrow> bytes \<Rightarrow> bytes result \<times> SessionOracle" where
  "edit K self ct offset newtext =
     (case SessionOracle_decrypt K self ct of
        (Inl e, self1) \<Rightarrow> (Inl e, self1)
      | (Inr pt, self1) \<Rightarrow>
          (let ptnew = slice_to pt offset @ newtext
                         @ slice_from pt (offset + int (length newtext))
           in encrypt K self1 ptnew))"

section \<open>The recovery algorithm\<close>

text \<open>
  The module-level \<open>decrypt(oracle, ct)\<close>. Python evaluates the arguments of the outer
  \<open>xorstr\<close> from left to right: the inner \<open>xorstr\<close>, then the call of \<open>edit\<close>.
\<close>

definition decrypt :: "keystream \<Rightarrow> SessionOracle \<Rightarrow> bytes \<Rightarrow> bytes result \<times> SessionOracle" where
  "decrypt K oracle ct =
     (let new_pt = replicate (length ct) (0x41 :: byte) in
      case xorstr ct new_pt of
        Inl e \<Rightarrow> (Inl e, oracle)
      | Inr x \<Rightarrow>
          (case edit K oracle ct 0 new_pt of
             (Inl e, oracle1) \<Rightarrow> (Inl e, oracle1)
           | (Inr ct', oracle1) \<Rightarrow> (xorstr x ct', oracle1)))"

section \<open>Sequences of calls on one instance\<close>

datatype call = Encrypt bytes | Decrypt bytes | Edit bytes int bytes | Recover bytes

fun perform :: "keystream \<Rightarrow> SessionOracle \<Rightarrow> call \<Rightarrow> bytes result \<times> SessionOracle" where
  "perform K self (Encrypt pt) = encrypt K self pt"
| "perform K self (Decrypt ct) = SessionOracle_decrypt K self ct"
| "perform K self (Edit ct offset newtext) = edit K self ct offset newtext"
| "perform K self (Recover ct) = decrypt K self ct"

fun run :: "keystream \<Rightarrow> SessionOracle \<Rightarrow> call list \<Rightarrow> SessionOracle" where
  "run K self [] = self"
| "run K self (c # cs) = run K (snd (perform K self c)) cs"

section \<open>The edit contract in the specification's words\<close>

text \<open>
  Overwriting the byte range \<open>[offset, offset + len newtext)\<close> of a plaintext: the result
  has the length of the plaintext, holds \<open>newtext\<close> inside the range and the old bytes
  outside.
\<close>

definition overwrite_range :: "bytes \<Rightarrow> nat \<Rightarrow> bytes \<Rightarrow> bytes" where
  "overwrite_range pt offset newtext =
     map (\<lambda>i. if offset \<le> i \<and> i < offset + length newtext then newtext ! (i - offset) else pt ! i)
       [0..<length pt]"

text \<open>The keystream bytes at positions \<open>0 .. n - 1\<close> of an instance.\<close>

definition keystream_of :: "keystream \<Rightarrow> SessionOracle \<Rightarrow> nat \<Rightarrow> bytes" where
  "keystream_of K self n =
     map (K (algorithm_key (cipher self)) (mode_nonce (cipher self))) [0..<n]"

text \<open>A small stand-in keystream for evaluating the definitions on concrete inputs.\<close>

definition demo_keystream :: keystream where
  "demo_keystream k n i = sum_list k + sum_list n * word_of_nat (Suc i)"

definition demo_oracle :: SessionOracle where
  "demo_oracle = fst (init (\<lambda>i. word_of_nat (3 * i + 1)))"

text \<open>XOR of a string with the keystream of an instance from position 0.\<close>

definition xor_keystream :: "keystream \<Rightarrow> SessionOracle \<Rightarrow> bytes \<Rightarrow> bytes" where
  "xor_keystream K self data = map2 (XOR) data (keystream_of K self (length data))"

section \<open>Basic facts\<close>

lemmas oracle_defs =
  edit_def SessionOracle_decrypt_def encrypt_def update_def encryptor_def decryptor_def
  finalize_def slice_to_def slice_from_def demo_keystream_def demo_oracle_def init_def
  rand_bytes_def BLOCKSIZE_def upt_rec

lemma length_keystream_of: "length (keystream_of K self n) = n"
  by (simp add: keystream_of_def)

lemma nth_keystream_of:
  "i < n \<Longrightarrow>
   keystream_of K self n ! i = K (algorithm_key (cipher self)) (mode_nonce (cipher self)) i"
  by (simp add: keystream_of_def)

lemma length_xor_keystream: "length (xor_keystream K self data) = length data"
  by (simp add: xor_keystream_def length_keystream_of)

lemma nth_xor_keystream:
  "i < length data \<Longrightarrow>
   xor_keystream K self data ! i
     = data ! i XOR K (algorithm_key (cipher self)) (mode_nonce (cipher self)) i"
  by (simp add: xor_keystream_def length_keystream_of nth_keystream_of)

lemma xor_keystream_twice: "xor_keystream K self (xor_keystream K self data) = data"
  by (rule nth_equalityI) (simp_all add: length_xor_keystream nth_xor_keystream xor.assoc)

text \<open>The three methods never raise and return the instance as they found it.\<close>

lemma encrypt_eq: "encrypt K self pt = (Inr (xor_keystream K self pt), self)"
  by (simp add: encrypt_def update_def encryptor_def finalize_def xor_keystream_def
      keystream_of_def)

lemma SessionOracle_decrypt_eq:
  "SessionOracle_decrypt K self ct = (Inr (xor_keystream K self ct), self)"
  by (simp add: SessionOracle_decrypt_def update_def decryptor_def finalize_def
      xor_keystream_def keystream_of_def)

lemma edit_eq:
  "edit K self ct offset newtext =
     (Inr (xor_keystream K self
        (slice_to (xor_keystream K self ct) offset @ newtext
           @ slice_from (xor_keystream K self ct) (offset + int (length newtext)))), self)"
  by (simp add: edit_def SessionOracle_decrypt_eq encrypt_eq)

text \<open>\<open>xorstr\<close> succeeds exactly when its second argument is at least as long as its first.\<close>

lemma xorstr_Inr: "length s1 \<le> length s2 \<Longrightarrow> xorstr s1 s2 = Inr (map2 (XOR) s1 s2)"
  by (induction s1 s2 rule: xorstr.induct) (simp_all add: xor_chr_def)

lemma xorstr_Inl: "length s2 < length s1 \<Longrightarrow> xorstr s1 s2 = Inl IndexError"
  by (induction s1 s2 rule: xorstr.induct) (auto split: sum.splits)

text \<open>
  For an offset that is a position of the text and a new text that fits, the two slices of
  \<open>edit\<close> build the overwritten plaintext.
\<close>

lemma splice_nat:
  "offset + length newtext \<le> length pt \<Longrightarrow>
   slice_to pt (int offset) @ newtext @ slice_from pt (int offset + int (length newtext))
     = overwrite_range pt offset newtext"
proof (rule nth_equalityI)
  assume "offset + length newtext \<le> length pt"
  then show "length (slice_to pt (int offset) @ newtext
                @ slice_from pt (int offset + int (length newtext)))
             = length (overwrite_range pt offset newtext)"
    by (simp add: slice_to_def slice_from_def overwrite_range_def)
next
  fix i
  assume "offset + length newtext \<le> length pt"
    and "i < length (slice_to pt (int offset) @ newtext
                @ slice_from pt (int offset + int (length newtext)))"
  then show "(slice_to pt (int offset) @ newtext
                @ slice_from pt (int offset + int (length newtext))) ! i
             = overwrite_range pt offset newtext ! i"
    by (auto simp add: slice_to_def slice_from_def overwrite_range_def nth_append
        nat_add_distrib)
qed

lemma perform_state: "snd (perform K self c) = self"
proof (cases c)
  case (Recover ct)
  have "snd (decrypt K self ct) = self"
    by (simp add: decrypt_def Let_def edit_eq split: sum.splits)
  with Recover show ?thesis by simp
qed (simp_all add: encrypt_eq SessionOracle_decrypt_eq edit_eq)

lemma run_state: "run K self cs = self"
  by (induction cs) (simp_all add: perform_state)

text \<open>
  The offset of \<open>edit\<close> is a Python integer. The specification types it as a non-negative
  integer, and the theorems about the edit contract below range over such offsets. A
  negative offset is taken by the slices as counted from the end and the text grows:
  with offset \<open>-1\<close> the three-byte text becomes \<open>pt[:2] + newtext + pt[0:]\<close>, six bytes.
\<close>

lemma edit_negative_offset:
  "fst (edit demo_keystream demo_oracle [1, 2, 3] (- 1) [0x41])
     = Inr [1, 2, 161, 169, 186, 171]"
  by (simp add: oracle_defs)

section \<open>The claims\<close>

text \<open>
  Claim C1. For every plaintext \<open>P\<close>: \<open>encrypt\<close> returns a ciphertext \<open>C\<close>, and the recovery
  algorithm \<open>decrypt(oracle, C)\<close>, which calls only \<open>edit\<close> on the oracle, returns exactly
  \<open>P\<close> (and raises nothing).
\<close>

theorem recovery_correct:
  "\<exists>C. encrypt K oracle P = (Inr C, oracle) \<and> decrypt K oracle C = (Inr P, oracle)"
proof -
  let ?C = "xor_keystream K oracle P"
  let ?A = "replicate (length ?C) (0x41 :: byte)"
  have e: "edit K oracle ?C 0 ?A = (Inr (xor_keystream K oracle ?A), oracle)"
    by (simp add: edit_eq slice_to_def slice_from_def length_xor_keystream)
  have x1: "xorstr ?C ?A = Inr (map2 (XOR) ?C ?A)"
    by (rule xorstr_Inr) simp
  have x2: "xorstr (map2 (XOR) ?C ?A) (xor_keystream K oracle ?A)
              = Inr (map2 (XOR) (map2 (XOR) ?C ?A) (xor_keystream K oracle ?A))"
    by (rule xorstr_Inr) (simp add: length_xor_keystream)
  have r: "map2 (XOR) (map2 (XOR) ?C ?A) (xor_keystream K oracle ?A) = P"
    by (rule nth_equalityI)
      (simp_all add: length_xor_keystream nth_xor_keystream xor.assoc xor.left_commute)
  have "decrypt K oracle ?C = (Inr P, oracle)"
    unfolding decrypt_def Let_def by (simp only: x1 e x2 r sum.case prod.case)
  then show ?thesis by (simp add: encrypt_eq)
qed

text \<open>
  Claim C2, as amended. A call of \<open>edit\<close> with \<open>offset + len(newtext) > len(C)\<close> is not
  rejected: it raises no error, returns the encryption of \<open>pt[:offset] + newtext\<close> (the
  whole new text is applied and nothing of the old text follows it), and returns the
  instance unchanged.
\<close>

theorem edit_out_of_range_accepted:
  "int (length ct) < offset + int (length newtext) \<Longrightarrow>
   \<exists>pt ct'. SessionOracle_decrypt K self ct = (Inr pt, self)
     \<and> edit K self ct offset newtext = (Inr ct', self)
     \<and> edit K self ct offset newtext = encrypt K self (slice_to pt offset @ newtext)"
  by (auto simp add: SessionOracle_decrypt_eq edit_eq encrypt_eq slice_from_def
      length_xor_keystream)

theorem edit_out_of_range_accepted_witness:
  "int (length [1, 2, 3 :: byte]) < 5 + int (length [0x41 :: byte])
   \<and> (\<exists>pt ct'. SessionOracle_decrypt demo_keystream demo_oracle [1, 2, 3] = (Inr pt, demo_oracle)
        \<and> edit demo_keystream demo_oracle [1, 2, 3] 5 [0x41] = (Inr ct', demo_oracle)
        \<and> edit demo_keystream demo_oracle [1, 2, 3] 5 [0x41]
            = encrypt demo_keystream demo_oracle (slice_to pt 5 @ [0x41]))
   \<and> edit demo_keystream demo_oracle [1, 2, 3] 5 [0x41] = (Inr [1, 2, 3, 25], demo_oracle)"
proof -
  have v: "edit demo_keystream demo_oracle [1, 2, 3] 5 [0x41]
             = (Inr [1, 2, 3, 25], demo_oracle)"
    by (simp add: oracle_defs)
  have h: "int (length [1, 2, 3 :: byte]) < 5 + int (length [0x41 :: byte])"
    by simp
  from h v edit_out_of_range_accepted [OF h, where K = demo_keystream and self = demo_oracle]
  show ?thesis by blast
qed

text \<open>
  Claim C2 as stated fails: with a one-byte ciphertext, offset 1 and a one-byte new text
  the range ends beyond the ciphertext, and \<open>edit\<close> returns a two-byte ciphertext instead
  of an error.
\<close>

theorem edit_out_of_range_counterexample:
  "int (length [0x10 :: byte]) < 1 + int (length [0x41 :: byte])
   \<and> edit demo_keystream demo_oracle [0x10] 1 [0x41] = (Inr [16, 41], demo_oracle)
   \<and> \<not> isl (fst (edit demo_keystream demo_oracle [0x10] 1 [0x41]))"
  by (simp add: oracle_defs)

text \<open>
  Claim C3. For an offset and a new text with \<open>offset + len(newtext) \<le> len(ct)\<close>,
  \<open>edit(ct, offset, newtext)\<close> is the encryption, from keystream position 0, of the
  plaintext obtained by decrypting \<open>ct\<close> from position 0 and overwriting its byte range
  \<open>[offset, offset + len(newtext))\<close> with \<open>newtext\<close>; the returned ciphertext has the
  length of \<open>ct\<close>.
\<close>

theorem edit_contract:
  "offset + length newtext \<le> length ct \<Longrightarrow>
   \<exists>pt ct'. SessionOracle_decrypt K self ct = (Inr pt, self)
     \<and> edit K self ct (int offset) newtext = encrypt K self (overwrite_range pt offset newtext)
     \<and> edit K self ct (int offset) newtext = (Inr ct', self)
     \<and> length ct' = length ct"
  by (simp add: SessionOracle_decrypt_eq edit_eq encrypt_eq splice_nat length_xor_keystream
      overwrite_range_def)

theorem edit_contract_witness:
  "(1 :: nat) + length [0x41, 0x42 :: byte] \<le> length [1, 2, 3, 4 :: byte]
   \<and> (\<exists>pt ct'. SessionOracle_decrypt demo_keystream demo_oracle [1, 2, 3, 4]
                  = (Inr pt, demo_oracle)
        \<and> edit demo_keystream demo_oracle [1, 2, 3, 4] 1 [0x41, 0x42]
            = encrypt demo_keystream demo_oracle (overwrite_range pt 1 [0x41, 0x42])
        \<and> edit demo_keystream demo_oracle [1, 2, 3, 4] 1 [0x41, 0x42] = (Inr ct', demo_oracle)
        \<and> length ct' = length [1, 2, 3, 4 :: byte])
   \<and> SessionOracle_decrypt demo_keystream demo_oracle [1, 2, 3, 4]
       = (Inr [241, 106, 227, 92], demo_oracle)
   \<and> overwrite_range [241, 106, 227, 92] 1 [0x41, 0x42] = [241, 0x41, 0x42, 92]
   \<and> encrypt demo_keystream demo_oracle [241, 0x41, 0x42, 92]
       = (Inr [1, 41, 162, 4], demo_oracle)"
proof -
  have h: "(1 :: nat) + length [0x41, 0x42 :: byte] \<le> length [1, 2, 3, 4 :: byte]"
    by simp
  have d: "SessionOracle_decrypt demo_keystream demo_oracle [1, 2, 3, 4]
             = (Inr [241, 106, 227, 92], demo_oracle)"
    by (simp add: oracle_defs)
  have w: "overwrite_range [241, 106, 227, 92] 1 [0x41, 0x42] = [241, 0x41, 0x42, 92]"
    by (simp add: overwrite_range_def upt_rec)
  have e: "encrypt demo_keystream demo_oracle [241, 0x41, 0x42, 92]
             = (Inr [1, 41, 162, 4], demo_oracle)"
    by (simp add: oracle_defs)
  have "int (1 :: nat) = 1"
    by simp
  with h d w e edit_contract [OF h, where K = demo_keystream and self = demo_oracle]
  show ?thesis by metis
qed

text \<open>
  Claim C4. On one instance and for any two plaintexts, \<open>encrypt(P1)[i] XOR P1[i]\<close> equals
  \<open>encrypt(P2)[i] XOR P2[i]\<close> at every index below both lengths: both are the keystream
  byte of position \<open>i\<close>, every call starting the keystream at position 0.
\<close>

theorem keystream_determinism:
  "i < min (length P1) (length P2) \<Longrightarrow>
   \<exists>C1 C2. encrypt K self P1 = (Inr C1, self) \<and> encrypt K self P2 = (Inr C2, self)
     \<and> C1 ! i XOR P1 ! i = C2 ! i XOR P2 ! i
     \<and> C1 ! i XOR P1 ! i = K (algorithm_key (cipher self)) (mode_nonce (cipher self)) i"
  by (simp add: encrypt_eq nth_xor_keystream xor.commute xor.left_commute)

theorem keystream_determinism_witness:
  "(1 :: nat) < min (length [0x41, 0x42, 0x43 :: byte]) (length [0x10, 0x20 :: byte])
   \<and> (\<exists>C1 C2. encrypt demo_keystream demo_oracle [0x41, 0x42, 0x43] = (Inr C1, demo_oracle)
        \<and> encrypt demo_keystream demo_oracle [0x10, 0x20] = (Inr C2, demo_oracle)
        \<and> C1 ! 1 XOR [0x41, 0x42, 0x43] ! 1 = C2 ! 1 XOR [0x10, 0x20] ! 1
        \<and> C1 ! 1 XOR [0x41, 0x42, 0x43] ! 1
            = demo_keystream (algorithm_key (cipher demo_oracle))
                (mode_nonce (cipher demo_oracle)) 1)
   \<and> encrypt demo_keystream demo_oracle [0x41, 0x42, 0x43] = (Inr [177, 42, 163], demo_oracle)
   \<and> encrypt demo_keystream demo_oracle [0x10, 0x20] = (Inr [224, 72], demo_oracle)
   \<and> (42 :: byte) XOR 0x42 = 104 \<and> (72 :: byte) XOR 0x20 = 104"
proof -
  have h: "(1 :: nat) < min (length [0x41, 0x42, 0x43 :: byte]) (length [0x10, 0x20 :: byte])"
    by simp
  have e1: "encrypt demo_keystream demo_oracle [0x41, 0x42, 0x43]
              = (Inr [177, 42, 163], demo_oracle)"
    by (simp add: oracle_defs)
  have e2: "encrypt demo_keystream demo_oracle [0x10, 0x20] = (Inr [224, 72], demo_oracle)"
    by (simp add: oracle_defs)
  have x: "(42 :: byte) XOR 0x42 = 104 \<and> (72 :: byte) XOR 0x20 = 104"
    by simp
  from h e1 e2 x keystream_determinism [OF h, where K = demo_keystream and self = demo_oracle]
  show ?thesis by blast
qed

text \<open>
  Claim C5. Decrypting, with the private \<open>__decrypt\<close> of the same instance, the result of
  encrypting \<open>P\<close> gives \<open>P\<close> again.
\<close>

theorem round_trip:
  "\<exists>C. encrypt K self P = (Inr C, self) \<and> SessionOracle_decrypt K self C = (Inr P, self)"
  by (simp add: encrypt_eq SessionOracle_decrypt_eq xor_keystream_twice)

text \<open>
  Claim C6. For an offset and a new text with \<open>offset + len(newtext) \<le> len(ct)\<close>, the
  ciphertext returned by \<open>edit\<close> has the length of \<open>ct\<close> and agrees with \<open>ct\<close> at every
  index outside \<open>[offset, offset + len(newtext))\<close>.
\<close>

theorem edit_frame:
  "offset + length newtext \<le> length ct \<Longrightarrow> i < length ct \<Longrightarrow>
   i < offset \<or> offset + length newtext \<le> i \<Longrightarrow>
   \<exists>ct'. edit K self ct (int offset) newtext = (Inr ct', self)
     \<and> length ct' = length ct \<and> ct' ! i = ct ! i"
  by (auto simp add: edit_eq splice_nat length_xor_keystream nth_xor_keystream
      overwrite_range_def xor.assoc)

theorem edit_frame_witness:
  "(1 :: nat) + length [0x41, 0x42 :: byte] \<le> length [1, 2, 3, 4 :: byte]
   \<and> (3 :: nat) < length [1, 2, 3, 4 :: byte]
   \<and> ((3 :: nat) < 1 \<or> (1 :: nat) + length [0x41, 0x42 :: byte] \<le> 3)
   \<and> (\<exists>ct'. edit demo_keystream demo_oracle [1, 2, 3, 4] 1 [0x41, 0x42] = (Inr ct', demo_oracle)
        \<and> length ct' = length [1, 2, 3, 4 :: byte] \<and> ct' ! 3 = [1, 2, 3, 4] ! 3)
   \<and> edit demo_keystream demo_oracle [1, 2, 3, 4] 1 [0x41, 0x42]
       = (Inr [1, 41, 162, 4], demo_oracle)"
proof -
  have h1: "(1 :: nat) + length [0x41, 0x42 :: byte] \<le> length [1, 2, 3, 4 :: byte]"
    by simp
  have h2: "(3 :: nat) < length [1, 2, 3, 4 :: byte]"
    by simp
  have h3: "(3 :: nat) < 1 \<or> (1 :: nat) + length [0x41, 0x42 :: byte] \<le> 3"
    by simp
  have v: "edit demo_keystream demo_oracle [1, 2, 3, 4] 1 [0x41, 0x42]
             = (Inr [1, 41, 162, 4], demo_oracle)"
    by (simp add: oracle_defs)
  have "int (1 :: nat) = 1"
    by simp
  with h1 h2 h3 v
    edit_frame [OF h1 h2 h3, where K = demo_keystream and self = demo_oracle]
  show ?thesis by metis
qed

text \<open>
  Claim C7. For an offset and a new text with \<open>offset + len(newtext) \<le> len(ct)\<close>: the call
  of \<open>edit\<close> leaves the instance as it was, so a second call with the same arguments
  returns the same ciphertext, and editing the returned ciphertext again with the same
  offset and new text returns it unchanged.
\<close>

theorem edit_idempotent:
  "offset + length newtext \<le> length ct \<Longrightarrow>
   \<exists>ct'. edit K self ct (int offset) newtext = (Inr ct', self)
     \<and> edit K (snd (edit K self ct (int offset) newtext)) ct (int offset) newtext
         = (Inr ct', self)
     \<and> edit K self ct' (int offset) newtext = (Inr ct', self)"
proof -
  assume h: "offset + length newtext \<le> length ct"
  let ?pt = "xor_keystream K self ct"
  have l: "length (overwrite_range ?pt offset newtext) = length ct"
    by (simp add: overwrite_range_def length_xor_keystream)
  have o: "overwrite_range (overwrite_range ?pt offset newtext) offset newtext
             = overwrite_range ?pt offset newtext"
    by (rule nth_equalityI) (auto simp add: overwrite_range_def)
  show ?thesis
    using h l o
    by (simp add: edit_eq splice_nat length_xor_keystream xor_keystream_twice)
qed

theorem edit_idempotent_witness:
  "(1 :: nat) + length [0x41, 0x42 :: byte] \<le> length [1, 2, 3, 4 :: byte]
   \<and> (\<exists>ct'. edit demo_keystream demo_oracle [1, 2, 3, 4] 1 [0x41, 0x42] = (Inr ct', demo_oracle)
        \<and> edit demo_keystream
            (snd (edit demo_keystream demo_oracle [1, 2, 3, 4] 1 [0x41, 0x42]))
            [1, 2, 3, 4] 1 [0x41, 0x42] = (Inr ct', demo_oracle)
        \<and> edit demo_keystream demo_oracle ct' 1 [0x41, 0x42] = (Inr ct', demo_oracle))
   \<and> edit demo_keystream demo_oracle [1, 41, 162, 4] 1 [0x41, 0x42]
       = (Inr [1, 41, 162, 4], demo_oracle)"
proof -
  have h: "(1 :: nat) + length [0x41, 0x42 :: byte] \<le> length [1, 2, 3, 4 :: byte]"
    by simp
  have v: "edit demo_keystream demo_oracle [1, 41, 162, 4] 1 [0x41, 0x42]
             = (Inr [1, 41, 162, 4], demo_oracle)"
    by (simp add: oracle_defs)
  have "int (1 :: nat) = 1"
    by simp
  with h v edit_idempotent [OF h, where K = demo_keystream and self = demo_oracle]
  show ?thesis by metis
qed

text \<open>
  Claim C8. For a ciphertext \<open>C\<close> of length \<open>L\<close> and a probe \<open>P'\<close> of length \<open>L\<close>,
  \<open>edit(C, 0, P')\<close> is \<open>P'\<close> XOR the first \<open>L\<close> keystream bytes; it is \<open>encrypt(P')\<close> on the
  same instance, and any other ciphertext \<open>D\<close> of length \<open>L\<close> gives the same result.
\<close>

theorem full_range_edit:
  "length P' = length C \<Longrightarrow> length D = length C \<Longrightarrow>
   edit K self C 0 P' = (Inr (map2 (XOR) P' (keystream_of K self (length C))), self)
     \<and> edit K self C 0 P' = encrypt K self P'
     \<and> edit K self D 0 P' = edit K self C 0 P'"
  by (simp add: edit_eq encrypt_eq slice_to_def slice_from_def length_xor_keystream
      xor_keystream_def)

theorem full_range_edit_witness:
  "length [0x41, 0x42, 0x43 :: byte] = length [1, 2, 3 :: byte]
   \<and> length [9, 8, 7 :: byte] = length [1, 2, 3 :: byte]
   \<and> edit demo_keystream demo_oracle [1, 2, 3] 0 [0x41, 0x42, 0x43]
       = (Inr (map2 (XOR) [0x41, 0x42, 0x43]
            (keystream_of demo_keystream demo_oracle (length [1, 2, 3 :: byte]))), demo_oracle)
   \<and> edit demo_keystream demo_oracle [1, 2, 3] 0 [0x41, 0x42, 0x43]
       = encrypt demo_keystream demo_oracle [0x41, 0x42, 0x43]
   \<and> edit demo_keystream demo_oracle [9, 8, 7] 0 [0x41, 0x42, 0x43]
       = edit demo_keystream demo_oracle [1, 2, 3] 0 [0x41, 0x42, 0x43]
   \<and> edit demo_keystream demo_oracle [9, 8, 7] 0 [0x41, 0x42, 0x43]
       = (Inr [177, 42, 163], demo_oracle)"
proof -
  have h1: "length [0x41, 0x42, 0x43 :: byte] = length [1, 2, 3 :: byte]"
    by simp
  have h2: "length [9, 8, 7 :: byte] = length [1, 2, 3 :: byte]"
    by simp
  have v: "edit demo_keystream demo_oracle [9, 8, 7] 0 [0x41, 0x42, 0x43]
             = (Inr [177, 42, 163], demo_oracle)"
    by (simp add: oracle_defs)
  from h1 h2 v full_range_edit [OF h1 h2, where K = demo_keystream and self = demo_oracle]
  show ?thesis by blast
qed

text \<open>
  Claim C9. The key and the nonce are set by the constructor from the random bytes it
  draws, and no call changes them: each of \<open>encrypt\<close>, \<open>__decrypt\<close>, \<open>edit\<close> and the
  recovery algorithm returns the instance with the same key and nonce, and so does every
  sequence of such calls.
\<close>

theorem key_nonce_read_only:
  "key (snd (perform K self c)) = key self \<and> nonce (snd (perform K self c)) = nonce self
   \<and> key (run K self cs) = key self \<and> nonce (run K self cs) = nonce self
   \<and> key (run K (fst (init g)) cs) = map g [0..<BLOCKSIZE]
   \<and> nonce (run K (fst (init g)) cs) = map g [BLOCKSIZE..<2 * BLOCKSIZE]"
proof -
  have "map (\<lambda>i. g (i + BLOCKSIZE)) [0..<BLOCKSIZE] = map g [BLOCKSIZE..<2 * BLOCKSIZE]"
    by (rule nth_equalityI) (simp_all add: add.commute)
  then show ?thesis
    by (simp add: perform_state run_state init_def rand_bytes_def)
qed

text \<open>
  Claim C10. When \<open>edit\<close> is called with \<open>0 \<le> offset \<le> len(ct)\<close> and
  \<open>offset + len(newtext) > len(ct)\<close>, no error is raised: the splice extends the plaintext
  and the returned ciphertext has length \<open>offset + len(newtext)\<close>, more than \<open>len(ct)\<close>.
\<close>

theorem edit_extends:
  "0 \<le> offset \<Longrightarrow> offset \<le> int (length ct) \<Longrightarrow>
   int (length ct) < offset + int (length newtext) \<Longrightarrow>
   \<exists>ct'. edit K self ct offset newtext = (Inr ct', self)
     \<and> int (length ct') = offset + int (length newtext)
     \<and> length ct < length ct'"
  by (auto simp add: edit_eq slice_to_def slice_from_def length_xor_keystream)

theorem edit_extends_witness:
  "(0 :: int) \<le> 2 \<and> 2 \<le> int (length [1, 2, 3 :: byte])
   \<and> int (length [1, 2, 3 :: byte]) < 2 + int (length [0x41, 0x42, 0x43 :: byte])
   \<and> (\<exists>ct'. edit demo_keystream demo_oracle [1, 2, 3] 2 [0x41, 0x42, 0x43]
               = (Inr ct', demo_oracle)
        \<and> int (length ct') = 2 + int (length [0x41, 0x42, 0x43 :: byte])
        \<and> length [1, 2, 3 :: byte] < length ct')
   \<and> edit demo_keystream demo_oracle [1, 2, 3] 2 [0x41, 0x42, 0x43]
       = (Inr [1, 2, 161, 26, 147], demo_oracle)"
proof -
  have h1: "(0 :: int) \<le> 2"
    by simp
  have h2: "2 \<le> int (length [1, 2, 3 :: byte])"
    by simp
  have h3: "int (length [1, 2, 3 :: byte]) < 2 + int (length [0x41, 0x42, 0x43 :: byte])"
    by simp
  have v: "edit demo_keystream demo_oracle [1, 2, 3] 2 [0x41, 0x42, 0x43]
             = (Inr [1, 2, 161, 26, 147], demo_oracle)"
    by (simp add: oracle_defs)
  from h1 h2 h3 v
    edit_extends [OF h1 h2 h3, where K = demo_keystream and self = demo_oracle]
  show ?thesis by blast
qed

end
